theory Spec2Isabelle
  imports Complex_Main
begin

section \<open>Model image encoder/decoder: bytes, errors, carriers\<close>

text \<open>
  The program is \<^verbatim>\<open>src/model_encoder.py\<close>, class \<^verbatim>\<open>ModelImageEncoder\<close>, with its four
  static methods \<^verbatim>\<open>encode_to_chunk\<close>, \<^verbatim>\<open>decode_from_chunk\<close>, \<^verbatim>\<open>encode_to_pixels\<close> and
  \<^verbatim>\<open>decode_from_pixels\<close>.

  A Python \<^verbatim>\<open>bytes\<close> value is a list of \<^typ>\<open>char\<close> (a \<^typ>\<open>char\<close> is one byte, read as a
  number by \<^const>\<open>of_char\<close>). A Python \<^verbatim>\<open>str\<close> is kept as the byte string of its encoding:
  UTF-8 for the file name that goes into the pixel header, Latin-1 for the keys and values
  of PNG text chunks. The chunk procedures are therefore modelled for names and chunk names
  of Latin-1 characters, which \<^verbatim>\<open>add_text\<close> stores as \<^verbatim>\<open>tEXt\<close> chunks. A name with a character
  outside Latin-1 is stored as an \<^verbatim>\<open>iTXt\<close> chunk, and a name that has no encoding at all (a
  lone surrogate, from a file name that is not UTF-8) makes \<^verbatim>\<open>add_text\<close> raise at line 50;
  neither is a value of the type \<^typ>\<open>string\<close> used here.
\<close>

type_synonym bytes = "char list"

text \<open>
  Every \<^verbatim>\<open>raise\<close> of the source and every exception of a library call it makes is one
  constructor. The source raises \<^verbatim>\<open>ValueError\<close> with different messages; the constructor
  names follow the error kinds of the specification.
\<close>

datatype error =
    MissingChunkError       \<comment> \<open>line 71: \<^verbatim>\<open>No model data found in chunk\<close>\<close>
  | InvalidFormatError      \<comment> \<open>line 154: \<^verbatim>\<open>Invalid encoded image format\<close>\<close>
  | InvalidHeaderError      \<comment> \<open>line 159: \<^verbatim>\<open>Invalid header format\<close>\<close>
  | MalformedTextError      \<comment> \<open>\<^verbatim>\<open>binascii.Error\<close> of \<^verbatim>\<open>base64.b64decode\<close>\<close>
  | CorruptDataError        \<comment> \<open>\<^verbatim>\<open>zlib.error\<close> of \<^verbatim>\<open>zlib.decompress\<close>\<close>
  | SizeMismatchError       \<comment> \<open>line 182: \<^verbatim>\<open>Size mismatch\<close>\<close>
  | IntValueError           \<comment> \<open>\<^verbatim>\<open>ValueError\<close> of \<^verbatim>\<open>int(...)\<close> on a non-number\<close>
  | UnicodeError            \<comment> \<open>\<^verbatim>\<open>.encode('ascii')\<close>, \<^verbatim>\<open>.decode('utf-8')\<close>\<close>
  | ZeroDivisionError       \<comment> \<open>a division by zero\<close>
  | ReshapeError            \<comment> \<open>\<^verbatim>\<open>reshape\<close> of a buffer of the wrong size\<close>
  | TextMemoryError         \<comment> \<open>\<^verbatim>\<open>ValueError\<close> of \<^verbatim>\<open>Image.open\<close>: \<^verbatim>\<open>Too much memory used in text chunks\<close>\<close>

subsection \<open>Python list primitives\<close>

text \<open>Position of the first occurrence of an element.\<close>

fun index_of :: "'a \<Rightarrow> 'a list \<Rightarrow> nat option" where
  "index_of c [] = None"
| "index_of c (x # xs) =
     (if x = c then Some 0 else map_option Suc (index_of c xs))"

text \<open>
  \<^verbatim>\<open>i\<close> as a slice or search bound on a sequence of length \<^verbatim>\<open>n\<close>: a negative bound counts
  from the end, and every bound is clamped into \<^verbatim>\<open>0..n\<close>.
\<close>

definition py_bound :: "nat \<Rightarrow> int \<Rightarrow> nat" where
  "py_bound n i = (if i < 0 then nat (max 0 (int n + i)) else min (nat i) n)"

text \<open>\<^verbatim>\<open>xs[lo:hi]\<close>.\<close>

definition py_slice :: "'a list \<Rightarrow> int \<Rightarrow> int \<Rightarrow> 'a list" where
  "py_slice xs lo hi =
     (let l = py_bound (length xs) lo; h = py_bound (length xs) hi
      in take (h - l) (drop l xs))"

text \<open>\<^verbatim>\<open>xs.find(c, start)\<close> for a one-byte needle: the index, or \<^verbatim>\<open>-1\<close>.\<close>

definition py_find :: "'a list \<Rightarrow> 'a \<Rightarrow> int \<Rightarrow> int" where
  "py_find xs c start =
     (let s = py_bound (length xs) start
      in case index_of c (drop s xs) of None \<Rightarrow> - 1 | Some i \<Rightarrow> int (s + i))"

text \<open>\<^verbatim>\<open>xs.split(c)\<close> for a one-byte separator: never empty, one more field than separators.\<close>

fun py_split :: "'a \<Rightarrow> 'a list \<Rightarrow> 'a list list" where
  "py_split c [] = [[]]"
| "py_split c (x # xs) =
     (if x = c then [] # py_split c xs
      else (case py_split c xs of
              [] \<Rightarrow> [[x]]
            | p # ps \<Rightarrow> (x # p) # ps))"

text \<open>\<^verbatim>\<open>xs.rstrip(b'\x00')\<close>.\<close>

definition rstrip_nul :: "bytes \<Rightarrow> bytes" where
  "rstrip_nul xs = rev (dropWhile (\<lambda>c. c = CHR 0x00) (rev xs))"

text \<open>\<^verbatim>\<open>str(n)\<close> for a length: the decimal digits, no sign, no leading zero.\<close>

definition digit_char :: "nat \<Rightarrow> char" where
  "digit_char d = char_of (48 + d)"

fun str_nat :: "nat \<Rightarrow> string" where
  "str_nat n = (if n < 10 then [digit_char n] else str_nat (n div 10) @ [digit_char (n mod 10)])"

declare str_nat.simps [simp del]

subsection \<open>The text transcoder: \<^verbatim>\<open>base64.b64encode\<close> and \<^verbatim>\<open>base64.b64decode\<close>\<close>

definition b64_alphabet :: string where
  "b64_alphabet = ''ABCDEFGHIJKLMNOPQRSTUVWXYZabcdefghijklmnopqrstuvwxyz0123456789+/''"

definition b64_char :: "nat \<Rightarrow> char" where
  "b64_char i = b64_alphabet ! i"

definition b64_index :: "char \<Rightarrow> nat option" where
  "b64_index c = index_of c b64_alphabet"

text \<open>
  \<^verbatim>\<open>base64.b64encode\<close>: three bytes become four symbols; a last group of one or two bytes is
  filled up with \<^verbatim>\<open>=\<close>. Every index below is less than 64.
\<close>

fun b64encode :: "bytes \<Rightarrow> string" where
  "b64encode [] = []"
| "b64encode [a] =
     [b64_char (of_char a div 4), b64_char ((of_char a mod 4) * 16), CHR ''='', CHR ''='']"
| "b64encode [a, b] =
     [b64_char (of_char a div 4),
      b64_char ((of_char a mod 4) * 16 + of_char b div 16),
      b64_char ((of_char b mod 16) * 4), CHR ''='']"
| "b64encode (a # b # c # rest) =
     [b64_char (of_char a div 4),
      b64_char ((of_char a mod 4) * 16 + of_char b div 16),
      b64_char ((of_char b mod 16) * 4 + of_char c div 64),
      b64_char (of_char c mod 64)] @ b64encode rest"

text \<open>
  \<^verbatim>\<open>base64.b64decode(s)\<close> is \<^verbatim>\<open>binascii.a2b_base64(s)\<close> in its default non-strict mode: a loop
  over the input with the position \<open>q\<close> in the current group of four symbols, the bits
  \<open>l\<close> left over from the previous symbol, and the number \<open>p\<close> of padding characters seen
  since the last symbol. A character outside the alphabet is skipped; padding that
  completes a group ends the decoding; input that ends inside a group is an error.
\<close>

definition emit :: "nat \<Rightarrow> error + bytes \<Rightarrow> error + bytes" where
  "emit b r = (case r of Inl e \<Rightarrow> Inl e | Inr out \<Rightarrow> Inr (char_of b # out))"

fun a2b_base64 :: "nat \<Rightarrow> nat \<Rightarrow> nat \<Rightarrow> string \<Rightarrow> error + bytes" where
  "a2b_base64 q l p [] = (if q = 0 then Inr [] else Inl MalformedTextError)"
| "a2b_base64 q l p (c # cs) =
     (if c = CHR ''='' then
        (if 2 \<le> q then
           (if 4 \<le> q + Suc p then Inr [] else a2b_base64 q l (Suc p) cs)
         else a2b_base64 q l p cs)
      else
        (case b64_index c of
           None \<Rightarrow> a2b_base64 q l p cs
         | Some v \<Rightarrow>
             (if q = 0 then a2b_base64 1 v 0 cs
              else if q = 1 then emit (l * 4 + v div 16) (a2b_base64 2 (v mod 16) 0 cs)
              else if q = 2 then emit (l * 16 + v div 4) (a2b_base64 3 (v mod 4) 0 cs)
              else emit (l * 64 + v) (a2b_base64 0 0 0 cs))))"

definition b64decode :: "string \<Rightarrow> error + bytes" where
  "b64decode s = a2b_base64 0 0 0 s"

subsection \<open>\<^verbatim>\<open>int(...)\<close> and \<^verbatim>\<open>.decode('utf-8')\<close>\<close>

text \<open>
  \<^verbatim>\<open>int(s)\<close> in base 10: surrounding whitespace is dropped, one sign is allowed, and the rest
  must be decimal digits, where a single underscore may stand between two digits. Anything
  else raises \<^verbatim>\<open>ValueError\<close>. The whitespace is a parameter: for \<^verbatim>\<open>bytes\<close> it is the ASCII
  whitespace, for a \<^verbatim>\<open>str\<close> of Latin-1 characters there are two more characters, the next
  line \<^verbatim>\<open>\x85\<close> and the no-break space \<^verbatim>\<open>\xa0\<close> (the separators \<^verbatim>\<open>\x1c\<close> to \<^verbatim>\<open>\x1f\<close> are not
  dropped: \<^verbatim>\<open>int('\x1c12')\<close> raises). The interpreter's configurable limit on the number of
  digits is not part of the model.
\<close>

definition ascii_space :: "char list" where
  "ascii_space = [CHR '' '', CHR 0x09, CHR 0x0A, CHR 0x0B, CHR 0x0C, CHR 0x0D]"

definition latin1_space :: "char list" where
  "latin1_space = ascii_space @ [CHR 0x85, CHR 0xA0]"

definition strip :: "char list \<Rightarrow> string \<Rightarrow> string" where
  "strip ws s = rev (dropWhile (\<lambda>c. c \<in> set ws) (rev (dropWhile (\<lambda>c. c \<in> set ws) s)))"

definition is_digit :: "char \<Rightarrow> bool" where
  "is_digit c = (48 \<le> (of_char c :: nat) \<and> (of_char c :: nat) \<le> 57)"

fun digits_ok :: "string \<Rightarrow> bool" where
  "digits_ok [] = False"
| "digits_ok [c] = is_digit c"
| "digits_ok (c # d # r) =
     (is_digit c \<and> (if d = CHR ''_'' then digits_ok r else digits_ok (d # r)))"

definition decimal :: "string \<Rightarrow> nat" where
  "decimal ds = foldl (\<lambda>acc c. acc * 10 + (of_char c - 48)) 0 (filter (\<lambda>c. is_digit c) ds)"

definition py_int :: "char list \<Rightarrow> string \<Rightarrow> error + int" where
  "py_int ws s =
     (case strip ws s of
        [] \<Rightarrow> Inl IntValueError
      | c # r \<Rightarrow>
          (let ds = (if c = CHR ''-'' \<or> c = CHR ''+'' then r else c # r)
           in if digits_ok ds
              then Inr ((if c = CHR ''-'' then - 1 else 1) * int (decimal ds))
              else Inl IntValueError))"

text \<open>
  \<^verbatim>\<open>bs.decode('utf-8')\<close> raises on a byte string that is not well-formed UTF-8. The lead
  byte gives the number of continuation bytes and the range of the first of them (no
  overlong forms, no surrogates, nothing above U+10FFFF).
\<close>

definition utf8_lead :: "nat \<Rightarrow> (nat \<times> nat \<times> nat) option" where
  "utf8_lead n =
     (if 0xC2 \<le> n \<and> n \<le> 0xDF then Some (1, 0x80, 0xBF)
      else if n = 0xE0 then Some (2, 0xA0, 0xBF)
      else if n = 0xED then Some (2, 0x80, 0x9F)
      else if 0xE1 \<le> n \<and> n \<le> 0xEF then Some (2, 0x80, 0xBF)
      else if n = 0xF0 then Some (3, 0x90, 0xBF)
      else if 0xF1 \<le> n \<and> n \<le> 0xF3 then Some (3, 0x80, 0xBF)
      else if n = 0xF4 then Some (3, 0x80, 0x8F)
      else None)"

definition in_range :: "nat \<Rightarrow> nat \<Rightarrow> char \<Rightarrow> bool" where
  "in_range lo hi c = (lo \<le> (of_char c :: nat) \<and> (of_char c :: nat) \<le> hi)"

fun utf8_valid :: "bytes \<Rightarrow> bool" where
  "utf8_valid [] = True"
| "utf8_valid (c # cs) =
     (if (of_char c :: nat) < 0x80 then utf8_valid cs
      else (case utf8_lead (of_char c) of
              None \<Rightarrow> False
            | Some (k, lo, hi) \<Rightarrow>
                k \<le> length cs \<and> list_all (in_range lo hi) (take 1 cs)
                \<and> list_all (in_range 0x80 0xBF) (take (k - 1) (drop 1 cs))
                \<and> utf8_valid (drop k cs)))"

subsection \<open>Ceilings\<close>

text \<open>
  The source computes \<^verbatim>\<open>math.ceil(a / b)\<close> and \<^verbatim>\<open>math.ceil(math.sqrt(n))\<close> on integers,
  through floating point. The model computes them in the real numbers, which is what the
  floating-point computation returns as long as its arguments stay below \<open>2\<^sup>5\<^sup>1\<close>, that is
  for every byte string that fits into memory. \<open>sqrt_search\<close> is the integer search that
  evaluates the square root's ceiling.
\<close>

definition ceil_quot :: "int \<Rightarrow> int \<Rightarrow> int" where
  "ceil_quot a b = \<lceil>real_of_int a / real_of_int b\<rceil>"

definition ceil_sqrt :: "nat \<Rightarrow> nat" where
  "ceil_sqrt n = nat \<lceil>sqrt (real n)\<rceil>"

function sqrt_search :: "nat \<Rightarrow> nat \<Rightarrow> nat" where
  "sqrt_search w n = (if n \<le> w * w then w else sqrt_search (Suc w) n)"
  by pat_completeness auto
termination
proof (relation "measure (\<lambda>(w, n). n - w)")
  show "wf (measure (\<lambda>(w, n). n - w))" by simp
next
  fix w n :: nat
  assume "\<not> n \<le> w * w"
  then have "w * w < n" by simp
  moreover have "w \<le> w * w" by (cases w) simp_all
  ultimately have "w < n" by (rule le_less_trans [rotated])
  then show "((Suc w, n), (w, n)) \<in> measure (\<lambda>(w, n). n - w)" by simp
qed

declare sqrt_search.simps [simp del]

subsection \<open>The compressor\<close>

text \<open>
  \<^verbatim>\<open>zlib.compress(data, level=9)\<close> and \<^verbatim>\<open>zlib.decompress(data)\<close> belong to the zlib library,
  not to this program: the four procedures take them as a parameter. What a theorem needs
  of the library it states as a hypothesis about this parameter.
\<close>

record zlib =
  compress :: "bytes \<Rightarrow> bytes"
  decompress :: "bytes \<Rightarrow> error + bytes"

text \<open>
  Two recorded calls of the library: \<^verbatim>\<open>zlib.compress(b'', 9)\<close> and
  \<^verbatim>\<open>zlib.compress(b'a', 9)\<close>, with the answers of CPython's zlib module. Outside the
  recording \<open>zlib_recorded\<close> answers with the empty stream and with \<^verbatim>\<open>zlib.error\<close>; it is
  used at the two recorded inputs only.
\<close>

definition zlib9_empty :: bytes where
  "zlib9_empty = [CHR 0x78, CHR 0xDA, CHR 0x03, CHR 0x00, CHR 0x00, CHR 0x00, CHR 0x00, CHR 0x01]"

definition zlib9_a :: bytes where
  "zlib9_a = [CHR 0x78, CHR 0xDA, CHR 0x4B, CHR 0x04, CHR 0x00, CHR 0x00, CHR 0x62, CHR 0x00, CHR 0x62]"

definition zlib_recorded :: zlib where
  "zlib_recorded =
     \<lparr>compress = (\<lambda>b. if b = [] then zlib9_empty else if b = ''a'' then zlib9_a else []),
      decompress = (\<lambda>c. if c = zlib9_empty then Inr []
                         else if c = zlib9_a then Inr ''a''
                         else Inl CorruptDataError)\<rparr>"

subsection \<open>Carriers and outcomes\<close>

text \<open>
  A PNG file is taken as what the imaging library reads from it and writes to it: the grid
  size, the flattened pixel bytes (row-major, three bytes per pixel, what
  \<^verbatim>\<open>np.array(img).flatten().tobytes()\<close> returns for an RGB image) and the text chunks in the
  order in which \<^verbatim>\<open>add_text\<close> wrote them, each as the key and the value that \<^verbatim>\<open>add_text\<close> was
  given. Saving a file keeps all of these; what opening it reads of the text chunks is
  \<open>open_text\<close> below. A chunk of four gigabytes or more, which the writer cannot store, is
  outside the model.
\<close>

record image =
  width :: nat
  height :: nat
  pixels :: bytes
  text_chunks :: "(string \<times> string) list"

text \<open>
  \<^verbatim>\<open>add_text(key, value)\<close> writes a \<^verbatim>\<open>tEXt\<close> chunk with the data \<^verbatim>\<open>key + b"\0" + value\<close>.
  \<^verbatim>\<open>Image.open\<close> reads the chunks in file order (\<^verbatim>\<open>PngStream.chunk_tEXt\<close>): the data is
  split at its first zero byte into keyword and value, a chunk with an empty keyword is
  skipped, the value is stored under the keyword, and its length is added to a running
  total that must not exceed \<^verbatim>\<open>MAX_TEXT_MEMORY\<close>, 64 MiB, or \<^verbatim>\<open>Image.open\<close> raises
  \<^verbatim>\<open>ValueError\<close>. The result \<^verbatim>\<open>img.text\<close> is a dictionary; here it is the list of the entries
  read, the latest first, so that \<^const>\<open>map_of\<close> looks a key up and finds the later of two
  chunks with one keyword.
\<close>

definition MAX_TEXT_MEMORY :: nat where
  "MAX_TEXT_MEMORY = 64 * (1024 * 1024)"

definition tEXt_data :: "string \<times> string \<Rightarrow> bytes" where
  "tEXt_data kv = fst kv @ [CHR 0x00] @ snd kv"

definition chunk_tEXt :: "bytes \<Rightarrow> string \<times> string" where
  "chunk_tEXt s =
     (let k = takeWhile (\<lambda>c. c \<noteq> CHR 0x00) s in (k, drop (Suc (length k)) s))"

fun read_text :: "bytes list \<Rightarrow> nat \<Rightarrow> (string \<times> string) list
                    \<Rightarrow> error + (string \<times> string) list" where
  "read_text [] text_memory im_text = Inr im_text"
| "read_text (s # ss) text_memory im_text =
     (case chunk_tEXt s of
        (k, v) \<Rightarrow>
          if k = [] then read_text ss text_memory im_text
          else if MAX_TEXT_MEMORY < text_memory + length v then Inl TextMemoryError
          else read_text ss (text_memory + length v) ((k, v) # im_text))"

definition open_text :: "image \<Rightarrow> error + (string \<times> string) list" where
  "open_text img = read_text (map tEXt_data (text_chunks img)) 0 []"

text \<open>
  What one call leaves behind: the file it has written to its output path, if it got that
  far, and either the exception it raised or the values it printed. The printed paths and
  the size of the PNG file on disk are left out.
\<close>

datatype item = Txt string | Num int | Ratio nat nat | Dim nat nat

record 'a outcome =
  persisted :: "'a option"
  status :: "error + item list"

definition failed :: "error \<Rightarrow> 'a outcome" where
  "failed e = \<lparr>persisted = None, status = Inl e\<rparr>"

section \<open>The four procedures\<close>

text \<open>
  Each procedure is the body of the method of the same name, line by line. Reading the
  model file (\<^verbatim>\<open>f.read()\<close>) gives the argument \<open>model_data\<close>, and
  \<^verbatim>\<open>os.path.basename(model_path)\<close> the argument \<open>name\<close>; saving the image and writing the
  output file give the field \<^const>\<open>persisted\<close> of the outcome. Failures of the file
  system itself are outside the model.
\<close>

subsection \<open>\<^verbatim>\<open>encode_to_chunk\<close> (lines 31 to 63)\<close>

text \<open>
  The image is saved (line 58) before the report is printed; the last line of the report
  divides by the compressed size (line 63).
\<close>

definition encode_to_chunk :: "zlib \<Rightarrow> string \<Rightarrow> bytes \<Rightarrow> string \<Rightarrow> image outcome" where
  "encode_to_chunk Z name model_data chunk_name =
     (let compressed_data = compress Z model_data;
          encoded_data = b64encode compressed_data;
          img = \<lparr>width = 1, height = 1, pixels = [CHR 0xFF, CHR 0xFF, CHR 0xFF],
                 text_chunks =
                   [(chunk_name, encoded_data),
                    (''mOdL_name'', name),
                    (''mOdL_size'', str_nat (length model_data)),
                    (''mOdL_compressed_size'', str_nat (length compressed_data))]\<rparr>
      in \<lparr>persisted = Some img,
          status =
            (if length compressed_data = 0 then Inl ZeroDivisionError
             else Inr [Num (int (length model_data)), Num (int (length compressed_data)),
                       Ratio (length model_data) (length compressed_data)])\<rparr>)"

subsection \<open>\<^verbatim>\<open>decode_from_chunk\<close> (lines 66 to 92)\<close>

text \<open>
  Lines 85 to 90, which run after the output file has been written (lines 81 and 82):
  the three optional entries are printed, the two sizes through \<^verbatim>\<open>int(...)\<close>.
\<close>

definition print_metadata :: "(string \<times> string) list \<Rightarrow> error + item list" where
  "print_metadata im_text =
     (let l1 = (case map_of im_text ''mOdL_name'' of None \<Rightarrow> [] | Some n \<Rightarrow> [Txt n])
      in case (case map_of im_text ''mOdL_size'' of
                 None \<Rightarrow> Inr []
               | Some s \<Rightarrow> (case py_int latin1_space s of
                              Inl e \<Rightarrow> Inl e
                            | Inr n \<Rightarrow> Inr [Num n])) of
           Inl e \<Rightarrow> Inl e
         | Inr l2 \<Rightarrow>
             (case (case map_of im_text ''mOdL_compressed_size'' of
                      None \<Rightarrow> Inr []
                    | Some s \<Rightarrow> (case py_int latin1_space s of
                                   Inl e \<Rightarrow> Inl e
                                 | Inr n \<Rightarrow> Inr [Num n])) of
                Inl e \<Rightarrow> Inl e
              | Inr l3 \<Rightarrow> Inr (l1 @ l2 @ l3)))"

text \<open>
  Line 68 opens the image, which reads its text chunks and can raise; line 70 looks the
  chunk name up in what was read.
\<close>

definition decode_from_chunk :: "zlib \<Rightarrow> image \<Rightarrow> string \<Rightarrow> bytes outcome" where
  "decode_from_chunk Z img chunk_name =
     (case open_text img of
        Inl e \<Rightarrow> failed e
      | Inr im_text \<Rightarrow>
          (case map_of im_text chunk_name of
             None \<Rightarrow> failed MissingChunkError
           | Some encoded_data \<Rightarrow>
               if list_all (\<lambda>c. (of_char c :: nat) < 128) encoded_data then
                 (case b64decode encoded_data of
                    Inl e \<Rightarrow> failed e
                  | Inr compressed_data \<Rightarrow>
                      (case decompress Z compressed_data of
                         Inl e \<Rightarrow> failed e
                       | Inr model_data \<Rightarrow>
                           \<lparr>persisted = Some model_data,
                            status = print_metadata im_text\<rparr>))
               else failed UnicodeError))"

subsection \<open>\<^verbatim>\<open>encode_to_pixels\<close> (lines 95 to 140)\<close>

text \<open>Line 107 and 108: the header.\<close>

definition pixel_header :: "string \<Rightarrow> nat \<Rightarrow> nat \<Rightarrow> bytes" where
  "pixel_header name original_size compressed_size =
     ''MODEL:'' @ name @ '':'' @ str_nat original_size @ '':'' @ str_nat compressed_size @ '':''"

text \<open>
  Lines 114 to 119: the grid \<^verbatim>\<open>(width, height)\<close> for \<open>len\<close> bytes, written \<open>(w, h)\<close>; the division by
  a zero width raises. Line 123: \<^verbatim>\<open>b'\x00' * k\<close> is empty for a negative \<^verbatim>\<open>k\<close>, as \<^const>\<open>replicate\<close>
  is at a truncated difference. Line 127: \<^verbatim>\<open>reshape\<close> raises unless the buffer has exactly
  \<^verbatim>\<open>height * width * 3\<close> bytes.
\<close>

definition grid :: "nat \<Rightarrow> error + nat \<times> nat" where
  "grid len =
     (let total_pixels = nat (ceil_quot (int len) 3);
          w = ceil_sqrt total_pixels
      in if w = 0 then Inl ZeroDivisionError
         else Inr (w, nat (ceil_quot (int total_pixels) (int w))))"

definition encode_to_pixels :: "zlib \<Rightarrow> string \<Rightarrow> bytes \<Rightarrow> image outcome" where
  "encode_to_pixels Z name model_data =
     (let compressed_data = compress Z model_data;
          b64_data = b64encode compressed_data;
          header_bytes = pixel_header name (length model_data) (length compressed_data);
          full_data = header_bytes @ b64_data
      in case grid (length full_data) of
           Inl e \<Rightarrow> failed e
         | Inr (w, h) \<Rightarrow>
             (let padded_size = w * h * 3;
                  padded_data = full_data @ replicate (padded_size - length full_data) (CHR 0x00)
              in if length padded_data = h * w * 3 then
                   \<lparr>persisted = Some \<lparr>width = w, height = h, pixels = padded_data,
                                       text_chunks = []\<rparr>,
                    status = Inr [Num (int (length model_data)),
                                  Num (int (length compressed_data)), Dim w h]\<rparr>
                 else failed ReshapeError))"

subsection \<open>\<^verbatim>\<open>decode_from_pixels\<close> (lines 143 to 191)\<close>

text \<open>Line 171: \<^verbatim>\<open>math.ceil(compressed_size * 4/3)\<close>, the number of bytes taken as text.\<close>

definition b64_extract_len :: "int \<Rightarrow> int" where
  "b64_extract_len compressed_size = ceil_quot (compressed_size * 4) 3"

text \<open>
  Lines 157 to 159: the header check, on the stream up to and including the colon at
  \<open>header_end\<close>.
\<close>

definition header_parts_of :: "bytes \<Rightarrow> int \<Rightarrow> bytes list" where
  "header_parts_of flat_data header_end =
     py_split (CHR '':'') (py_slice flat_data 0 (header_end + 1))"

definition decode_from_pixels :: "zlib \<Rightarrow> image \<Rightarrow> bytes outcome" where
  "decode_from_pixels Z img =
     (let flat_data = pixels img;
          header_end = py_find flat_data (CHR '':'') 0
      in if header_end = - 1 then failed InvalidFormatError
         else
           (let header_parts = header_parts_of flat_data header_end
            in if length header_parts < 4 then failed InvalidHeaderError
               else if header_parts ! 0 = ''MODEL'' then
                 (if utf8_valid (header_parts ! 1) then
                    (case py_int ascii_space (header_parts ! 2) of
                       Inl e \<Rightarrow> failed e
                     | Inr original_size \<Rightarrow>
                    (case py_int ascii_space (header_parts ! 3) of
                       Inl e \<Rightarrow> failed e
                     | Inr compressed_size \<Rightarrow>
                    (let full_header_end1 = py_find flat_data (CHR '':'') (header_end + 1);
                         full_header_end2 = py_find flat_data (CHR '':'') (full_header_end1 + 1);
                         full_header_end = py_find flat_data (CHR '':'') (full_header_end2 + 1) + 1;
                         b64_data = rstrip_nul
                           (py_slice flat_data full_header_end
                              (full_header_end + b64_extract_len compressed_size))
                     in case b64decode b64_data of
                          Inl e \<Rightarrow> failed e
                        | Inr compressed_data \<Rightarrow>
                       (case decompress Z compressed_data of
                          Inl e \<Rightarrow> failed e
                        | Inr model_data \<Rightarrow>
                            if int (length model_data) = original_size then
                              \<lparr>persisted = Some model_data,
                               status = Inr [Txt (header_parts ! 1), Num original_size,
                                             Num compressed_size]\<rparr>
                            else failed SizeMismatchError))))
                  else failed UnicodeError)
               else failed InvalidHeaderError))"

section \<open>Properties of the primitives\<close>

subsection \<open>Ceilings\<close>

text \<open>Both ceilings are computed in the integers.\<close>

lemma ceil_quot_code [code]: "ceil_quot a b = - ((- a) div b)"
proof -
  have "\<lceil>real_of_int a / real_of_int b\<rceil> = - \<lfloor>- (real_of_int a / real_of_int b)\<rfloor>"
    by (simp add: ceiling_def)
  also have "- (real_of_int a / real_of_int b) = real_of_int (- a) / real_of_int b" by simp
  also have "\<lfloor>real_of_int (- a) / real_of_int b\<rfloor> = (- a) div b"
    by (rule floor_divide_of_int_eq)
  finally show ?thesis by (simp add: ceil_quot_def)
qed

lemma sqrt_search_least:
  "w \<le> r \<Longrightarrow> n \<le> r * r \<Longrightarrow> (\<And>k. w \<le> k \<Longrightarrow> k < r \<Longrightarrow> k * k < n) \<Longrightarrow> sqrt_search w n = r"
proof (induction w n rule: sqrt_search.induct)
  case (1 w n)
  show ?case
  proof (cases "n \<le> w * w")
    case True
    have "\<not> w < r" using True "1.prems"(3) [of w] by auto
    with "1.prems"(1) have "w = r" by simp
    with True show ?thesis by (simp add: sqrt_search.simps)
  next
    case False
    have "w \<noteq> r" using False "1.prems"(2) by auto
    with "1.prems"(1) have "Suc w \<le> r" by simp
    then have "sqrt_search (Suc w) n = r"
      using "1.IH" [OF False] "1.prems"(2,3) by simp
    with False show ?thesis by (simp add: sqrt_search.simps)
  qed
qed

lemma ceil_sqrt_upper: "n \<le> ceil_sqrt n * ceil_sqrt n"
proof -
  let ?r = "ceil_sqrt n"
  have "sqrt (real n) \<le> real_of_int \<lceil>sqrt (real n)\<rceil>" by (rule le_of_int_ceiling)
  moreover have "(- 1 :: real) < sqrt (real n)" by (rule less_le_trans [of _ 0]) simp_all
  then have "0 \<le> \<lceil>sqrt (real n)\<rceil>" by simp
  ultimately have 1: "sqrt (real n) \<le> real ?r" by (simp add: ceil_sqrt_def)
  have "real n = sqrt (real n) * sqrt (real n)" by simp
  also have "\<dots> \<le> real ?r * real ?r" using 1 by (intro mult_mono) simp_all
  finally have "real n \<le> real (?r * ?r)" by simp
  then show ?thesis by (simp only: of_nat_le_iff)
qed

lemma ceil_sqrt_lower: "k < ceil_sqrt n \<Longrightarrow> k * k < n"
proof -
  assume "k < ceil_sqrt n"
  then have "int k < \<lceil>sqrt (real n)\<rceil>" by (simp add: ceil_sqrt_def)
  then have "real k < sqrt (real n)" by (simp add: less_ceiling_iff)
  then have "real k * real k < sqrt (real n) * sqrt (real n)"
    by (intro mult_strict_mono') simp_all
  then have "real (k * k) < real n" by simp
  then show ?thesis by (simp only: of_nat_less_iff)
qed

lemma ceil_sqrt_code [code]: "ceil_sqrt n = sqrt_search 0 n"
  by (rule sym, rule sqrt_search_least) (simp_all add: ceil_sqrt_upper ceil_sqrt_lower)

subsection \<open>The text transcoder\<close>

text \<open>
  Decoding inverts encoding, the text has four symbols for every three bytes or part of
  three bytes, and all of its characters are ASCII.
\<close>

lemma index_of_nth: "distinct xs \<Longrightarrow> i < length xs \<Longrightarrow> index_of (xs ! i) xs = Some i"
proof (induction xs arbitrary: i)
  case Nil then show ?case by simp
next
  case (Cons x xs)
  then show ?case by (cases i) auto
qed

lemma distinct_b64_alphabet: "distinct b64_alphabet"
  unfolding b64_alphabet_def by simp

lemma length_b64_alphabet: "length b64_alphabet = 64"
  unfolding b64_alphabet_def by simp

lemma b64_index_char: "i < 64 \<Longrightarrow> b64_index (b64_char i) = Some i"
  unfolding b64_index_def b64_char_def
  by (rule index_of_nth) (simp_all add: distinct_b64_alphabet length_b64_alphabet)

lemma b64_alphabet_ascii: "list_all (\<lambda>c. c \<noteq> CHR ''='' \<and> (of_char c :: nat) < 128) b64_alphabet"
  unfolding b64_alphabet_def by simp

lemma b64_char_props: "i < 64 \<Longrightarrow> b64_char i \<noteq> CHR ''='' \<and> (of_char (b64_char i) :: nat) < 128"
  using b64_alphabet_ascii length_b64_alphabet
  unfolding b64_char_def list_all_length by simp

lemma b64_char_not_pad: "i < 64 \<Longrightarrow> b64_char i \<noteq> CHR ''=''"
  by (simp add: b64_char_props)

lemma of_char_lt: "of_char c < (256::nat)"
proof -
  have "of_char c mod 256 < (256::nat)" by (rule mod_less_divisor) simp
  then show ?thesis by simp
qed

lemma q1: "(a::nat) < 256 \<Longrightarrow> a div 4 < 64" by simp
lemma q2: "(b::nat) < 256 \<Longrightarrow> (a mod 4) * 16 + b div 16 < 64"
proof -
  assume "b < 256"
  then have "b div 16 < 16" by simp
  moreover have "a mod 4 < 4" by simp
  then have "a mod 4 \<le> 3" by simp
  then have "(a mod 4) * 16 \<le> 48" by simp
  ultimately show ?thesis by simp
qed
lemma q2': "(a mod 4) * 16 < (64::nat)"
  using q2 [of 0 a] by simp
lemma q3: "(c::nat) < 256 \<Longrightarrow> (b mod 16) * 4 + c div 64 < 64"
proof -
  assume "c < 256"
  then have "c div 64 < 4" by simp
  moreover have "b mod 16 < 16" by simp
  then have "b mod 16 \<le> 15" by simp
  then have "(b mod 16) * 4 \<le> 60" by simp
  ultimately show ?thesis by simp
qed
lemma q3': "(b mod 16) * 4 < (64::nat)"
  using q3 [of 0 b] by simp
lemma r1: "(b::nat) < 256 \<Longrightarrow> (a div 4) * 4 + ((a mod 4) * 16 + b div 16) div 16 = a"
  by (simp add: div_less)
lemma r1': "(a div 4) * 4 + ((a mod 4) * 16) div 16 = (a::nat)"
  by simp
lemma r2: "(b::nat) < 256 \<Longrightarrow> c < 256 \<Longrightarrow>
   ((a mod 4) * 16 + b div 16) mod 16 * 16 + ((b mod 16) * 4 + c div 64) div 4 = b"
proof -
  assume b: "b < 256" and c: "c < 256"
  have "b div 16 < 16" using b by simp
  then have 1: "((a mod 4) * 16 + b div 16) mod 16 = b div 16" by simp
  have "c div 64 < 4" using c by simp
  then have 2: "((b mod 16) * 4 + c div 64) div 4 = b mod 16" by simp
  show ?thesis unfolding 1 2 by simp
qed
lemma r2': "(b::nat) < 256 \<Longrightarrow>
   ((a mod 4) * 16 + b div 16) mod 16 * 16 + ((b mod 16) * 4) div 4 = b"
  using r2 [of b 0 a] by simp
lemma r3: "(c::nat) < 256 \<Longrightarrow> ((b mod 16) * 4 + c div 64) mod 4 * 64 + c mod 64 = c"
proof -
  assume c: "c < 256"
  have "c div 64 < 4" using c by simp
  then have 1: "((b mod 16) * 4 + c div 64) mod 4 = c div 64" by simp
  show ?thesis unfolding 1 by simp
qed

lemma emit_Inr: "emit b (Inr out) = Inr (char_of b # out)"
  by (simp add: emit_def)

lemma a2b_sym0: "v < 64 \<Longrightarrow> a2b_base64 0 l p (b64_char v # cs) = a2b_base64 1 v 0 cs"
  by (simp add: b64_index_char b64_char_not_pad)

lemma a2b_sym1: "v < 64 \<Longrightarrow> a2b_base64 (Suc 0) l p (b64_char v # cs) = emit (l * 4 + v div 16) (a2b_base64 2 (v mod 16) 0 cs)"
  by (simp add: b64_index_char b64_char_not_pad)

lemma a2b_sym2: "v < 64 \<Longrightarrow> a2b_base64 2 l p (b64_char v # cs) = emit (l * 16 + v div 4) (a2b_base64 3 (v mod 4) 0 cs)"
  by (simp add: b64_index_char b64_char_not_pad)

lemma a2b_sym3: "v < 64 \<Longrightarrow> a2b_base64 3 l p (b64_char v # cs) = emit (l * 64 + v) (a2b_base64 0 0 0 cs)"
  by (simp add: b64_index_char b64_char_not_pad)

lemma a2b_pad2: "a2b_base64 2 l 0 (CHR ''='' # CHR ''='' # cs) = Inr []"
  by simp

lemma a2b_pad3: "a2b_base64 3 l 0 (CHR ''='' # cs) = Inr []"
  by simp

lemma div3_step: "(5 + n) div 3 = Suc ((Suc (Suc n)) div (3::nat))"
proof -
  have "(5 + n) div 3 = (Suc (Suc n) + 3) div 3" by (simp add: add.commute)
  also have "\<dots> = Suc (Suc (Suc n) div 3)" by simp
  finally show ?thesis .
qed

lemma length_b64encode: "length (b64encode bs) = 4 * ((length bs + 2) div 3)"
  by (induction bs rule: b64encode.induct) (simp_all add: div3_step)

lemma a2b_encode: "a2b_base64 0 l p (b64encode bs) = Inr bs"
proof (induction bs arbitrary: l p rule: b64encode.induct)
  case 1
  then show ?case by simp
next
  case (2 a)
  have A: "of_char a < (256::nat)" by (rule of_char_lt)
  show ?case
    unfolding b64encode.simps
    by (simp only: a2b_sym0 [OF q1 [OF A]] a2b_sym1 [OF q2'] a2b_pad2 emit_Inr r1' One_nat_def char_of_char)
next
  case (3 a b)
  have A: "of_char a < (256::nat)" and B: "of_char b < (256::nat)" by (rule of_char_lt)+
  show ?case
    unfolding b64encode.simps
    by (simp only: a2b_sym0 [OF q1 [OF A]] a2b_sym1 [OF q2 [OF B]] a2b_sym2 [OF q3'] a2b_pad3 emit_Inr
        r1 [OF B] r2' [OF B] One_nat_def char_of_char)
next
  case (4 a b c rest)
  have A: "of_char a < (256::nat)" and B: "of_char b < (256::nat)" and C: "of_char c < (256::nat)"
    by (rule of_char_lt)+
  have i3: "of_char c mod 64 < (64::nat)" by simp
  show ?case
    unfolding b64encode.simps append.simps
    by (simp only: a2b_sym0 [OF q1 [OF A]] a2b_sym1 [OF q2 [OF B]] a2b_sym2 [OF q3 [OF C]] a2b_sym3 [OF i3]
        emit_Inr r1 [OF B] r2 [OF B C] r3 [OF C] One_nat_def char_of_char "4.IH")
qed

lemma b64decode_b64encode: "b64decode (b64encode bs) = Inr bs"
  by (simp add: b64decode_def a2b_encode)

lemma b64encode_ascii: "list_all (\<lambda>c. (of_char c :: nat) < 128) (b64encode bs)"
proof (induction bs rule: b64encode.induct)
  case 1
  then show ?case by simp
next
  case (2 a)
  have A: "of_char a < (256::nat)" by (rule of_char_lt)
  show ?case by (simp add: b64_char_props q1 [OF A] q2')
next
  case (3 a b)
  have A: "of_char a < (256::nat)" and B: "of_char b < (256::nat)" by (rule of_char_lt)+
  show ?case by (simp add: b64_char_props q1 [OF A] q2 [OF B] q3')
next
  case (4 a b c rest)
  have A: "of_char a < (256::nat)" and B: "of_char b < (256::nat)" and C: "of_char c < (256::nat)"
    by (rule of_char_lt)+
  show ?case using "4.IH" by (simp add: b64_char_props q1 [OF A] q2 [OF B] q3 [OF C])
qed

subsection \<open>The header check of \<^verbatim>\<open>decode_from_pixels\<close>\<close>

text \<open>
  \<open>header_end\<close> is the position of the first colon of the stream (line 152), so the slice
  \<^verbatim>\<open>flat_data[:header_end + 1]\<close> of line 157 holds exactly one colon, its last byte, and
  splitting it gives exactly two fields. The test \<^verbatim>\<open>len(header_parts) < 4\<close> of line 158 is
  therefore true on every stream, and nothing below line 159 is ever reached.
\<close>

lemma py_split_first:
  "index_of c xs = Some k \<Longrightarrow> py_split c (take (Suc k) xs) = [take k xs, []]"
proof (induction xs arbitrary: k)
  case Nil
  then show ?case by simp
next
  case (Cons x xs)
  show ?case
  proof (cases "x = c")
    case True
    with Cons.prems show ?thesis by simp
  next
    case False
    with Cons.prems obtain k' where k': "index_of c xs = Some k'" "k = Suc k'"
      by auto
    from Cons.IH [OF k'(1)] False k'(2) show ?thesis by simp
  qed
qed

lemma index_of_less: "index_of c xs = Some k \<Longrightarrow> k < length xs"
  by (induction xs arbitrary: k) (auto split: if_splits)

lemma index_of_None: "index_of c xs = None \<longleftrightarrow> c \<notin> set xs"
  by (induction xs) auto

lemma py_find_0: "py_find xs c 0 = (case index_of c xs of None \<Rightarrow> - 1 | Some i \<Rightarrow> int i)"
  by (simp add: py_find_def py_bound_def split: option.split)

lemma py_slice_prefix: "k < length xs \<Longrightarrow> py_slice xs 0 (int k + 1) = take (Suc k) xs"
  by (simp add: py_slice_def py_bound_def Let_def nat_add_distrib min_def)

lemma header_parts_first:
  assumes "index_of (CHR '':'') flat = Some k"
  shows "header_parts_of flat (int k) = [take k flat, []]"
  using assms by (simp add: header_parts_of_def py_slice_prefix index_of_less py_split_first)

lemma decode_from_pixels_fails:
  "decode_from_pixels Z img =
     (if CHR '':'' \<in> set (pixels img) then failed InvalidHeaderError else failed InvalidFormatError)"
proof (cases "index_of (CHR '':'') (pixels img)")
  case None
  then have "CHR '':'' \<notin> set (pixels img)" by (simp add: index_of_None)
  then show ?thesis using None
    by (simp add: decode_from_pixels_def py_find_0)
next
  case (Some k)
  then have "CHR '':'' \<in> set (pixels img)"
    using index_of_None [of "CHR '':''" "pixels img"] by simp
  then show ?thesis using Some
    by (simp add: decode_from_pixels_def py_find_0 header_parts_first Let_def)
qed

subsection \<open>The grid of \<^verbatim>\<open>encode_to_pixels\<close>\<close>

text \<open>
  A ceiling of a quotient is large enough and positive, so for a non-empty frame the grid
  exists, has no side of length zero and holds the frame.
\<close>

lemma ceil_quot_upper: "0 < b \<Longrightarrow> a \<le> b * ceil_quot a b"
proof -
  assume b: "0 < b"
  have "- a = b * ((- a) div b) + (- a) mod b" by simp
  moreover have "0 \<le> (- a) mod b" using b by simp
  ultimately have "b * ((- a) div b) \<le> - a" by linarith
  then show ?thesis by (simp add: ceil_quot_code)
qed

lemma ceil_quot_pos: "0 < a \<Longrightarrow> 0 < b \<Longrightarrow> 0 < ceil_quot a b"
proof -
  assume a: "0 < a" and b: "0 < b"
  have "0 < b * ceil_quot a b" using ceil_quot_upper [OF b, of a] a by simp
  then show ?thesis using b by (simp add: zero_less_mult_iff)
qed

lemma ceil_quot_nat_upper: "0 < b \<Longrightarrow> a \<le> b * nat (ceil_quot (int a) (int b))"
proof -
  assume b: "0 < b"
  have "int a \<le> int b * ceil_quot (int a) (int b)" using b by (simp add: ceil_quot_upper)
  moreover have "ceil_quot (int a) (int b) \<le> int (nat (ceil_quot (int a) (int b)))" by simp
  then have "int b * ceil_quot (int a) (int b) \<le> int b * int (nat (ceil_quot (int a) (int b)))"
    by (rule mult_left_mono) simp
  ultimately have "int a \<le> int (b * nat (ceil_quot (int a) (int b)))" by simp
  then show ?thesis by (simp only: of_nat_le_iff)
qed

lemma ceil_quot_nat_pos: "0 < a \<Longrightarrow> 0 < b \<Longrightarrow> 0 < nat (ceil_quot (int a) (int b))"
  using ceil_quot_pos [of "int a" "int b"] by simp

lemma ceil_sqrt_pos: "0 < n \<Longrightarrow> 0 < ceil_sqrt n"
  using ceil_sqrt_upper [of n] by (cases "ceil_sqrt n") simp_all

lemma grid_sizing:
  assumes "1 \<le> len"
  shows "\<exists>w h. grid len = Inr (w, h)
           \<and> w = ceil_sqrt (nat (ceil_quot (int len) 3))
           \<and> h = nat (ceil_quot (ceil_quot (int len) 3) (int w))
           \<and> 1 \<le> w \<and> 1 \<le> h \<and> len \<le> w * h * 3"
proof -
  define tp where "tp = nat (ceil_quot (int len) 3)"
  define w where "w = ceil_sqrt tp"
  define h where "h = nat (ceil_quot (int tp) (int w))"
  have tp: "0 < tp" and len: "len \<le> 3 * tp"
    using assms ceil_quot_nat_pos [of len 3] ceil_quot_nat_upper [of 3 len]
    by (simp_all add: tp_def)
  have w: "0 < w" using tp by (simp add: w_def ceil_sqrt_pos)
  have h: "0 < h" and tph: "tp \<le> w * h"
    using tp w ceil_quot_nat_pos [of tp w] ceil_quot_nat_upper [of w tp]
    by (simp_all add: h_def)
  have "3 * tp \<le> 3 * (w * h)" using tph by simp
  with len have cap: "len \<le> w * h * 3" by simp
  have tpi: "int tp = ceil_quot (int len) 3"
    using ceil_quot_pos [of "int len" 3] assms by (simp add: tp_def)
  have g: "grid len = Inr (w, h)"
    using w by (simp add: grid_def Let_def tp_def [symmetric] w_def [symmetric] h_def [symmetric])
  show ?thesis
    using g w h cap tpi by (simp add: w_def h_def tp_def)
qed

lemma pixel_header_nonempty: "1 \<le> length (pixel_header name a c @ rest)"
  by (simp add: pixel_header_def)

lemma encode_to_pixels_result:
  fixes Z name model_data
  defines "full_data \<equiv> pixel_header name (length model_data) (length (compress Z model_data))
                          @ b64encode (compress Z model_data)"
  shows "\<exists>w h. grid (length full_data) = Inr (w, h) \<and> length full_data \<le> w * h * 3
           \<and> encode_to_pixels Z name model_data =
               \<lparr>persisted = Some \<lparr>width = w, height = h,
                                   pixels = full_data @ replicate (w * h * 3 - length full_data) (CHR 0x00),
                                   text_chunks = []\<rparr>,
                status = Inr [Num (int (length model_data)),
                              Num (int (length (compress Z model_data))), Dim w h]\<rparr>"
proof -
  have "1 \<le> length full_data" unfolding full_data_def by (rule pixel_header_nonempty)
  from grid_sizing [OF this] obtain w h where
    g: "grid (length full_data) = Inr (w, h)" and cap: "length full_data \<le> w * h * 3"
    by blast
  have "encode_to_pixels Z name model_data =
          \<lparr>persisted = Some \<lparr>width = w, height = h,
                              pixels = full_data @ replicate (w * h * 3 - length full_data) (CHR 0x00),
                              text_chunks = []\<rparr>,
           status = Inr [Num (int (length model_data)),
                         Num (int (length (compress Z model_data))), Dim w h]\<rparr>"
  proof -
    have len: "length (full_data @ replicate (w * h * 3 - length full_data) (CHR 0x00)) = h * w * 3"
      using cap by (simp add: mult.commute)
    show ?thesis
      unfolding encode_to_pixels_def Let_def full_data_def [symmetric]
      by (simp only: g len sum.case prod.case) simp
  qed
  with g cap show ?thesis by blast
qed

lemma colon_in_header: "CHR '':'' \<in> set (pixel_header name a c @ rest)"
  by (simp add: pixel_header_def)

section \<open>The claims about the pixel decoder's header\<close>

text \<open>
  Claim C1, the round trip of the pixel method: for every byte sequence \<open>b\<close> and every name
  without a colon, decoding the carrier written by \<^verbatim>\<open>encode_to_pixels\<close> succeeds and yields
  \<open>b\<close>. The code does not do this. For every payload, every name and every compressor the
  encoder writes a carrier, and \<^verbatim>\<open>decode_from_pixels\<close> on that carrier raises
  \<^verbatim>\<open>Invalid header format\<close> (line 159) and writes no output.
\<close>

theorem pixel_round_trip_fails:
  "\<exists>img. persisted (encode_to_pixels Z name b) = Some img
         \<and> decode_from_pixels Z img = \<lparr>persisted = None, status = Inl InvalidHeaderError\<rparr>"
proof -
  from encode_to_pixels_result [of name b Z] obtain w h where
    e: "encode_to_pixels Z name b =
               \<lparr>persisted = Some \<lparr>width = w, height = h,
                                   pixels = (pixel_header name (length b) (length (compress Z b))
                          @ b64encode (compress Z b)) @ replicate (w * h * 3 - length (pixel_header name (length b) (length (compress Z b))
                          @ b64encode (compress Z b))) (CHR 0x00),
                                   text_chunks = []\<rparr>,
                status = Inr [Num (int (length b)),
                              Num (int (length (compress Z b))), Dim w h]\<rparr>"
    by blast
  show ?thesis
    unfolding e by (simp add: decode_from_pixels_fails failed_def pixel_header_def)
qed

text \<open>
  Claim C2, the header check: the decoder scans for the colons of the four fields and fails
  with \<^verbatim>\<open>InvalidHeaderError\<close> exactly when there are fewer than four fields or the first is
  not \<^verbatim>\<open>MODEL\<close>, so a stream that begins with a well-formed header passes the check and its
  three fields are parsed. The code does not do this. On every stream that begins with the
  header \<^verbatim>\<open>MODEL:<name>:<original_size>:<compressed_size>:\<close>, whatever follows it, the fields
  that line 157 computes are \<^verbatim>\<open>MODEL\<close> and the empty string, two of them, and the decoder
  raises \<^verbatim>\<open>Invalid header format\<close>.
\<close>

theorem header_check_rejects_model_header:
  "header_parts_of (pixel_header name original_size compressed_size @ rest)
       (py_find (pixel_header name original_size compressed_size @ rest) (CHR '':'') 0)
     = [''MODEL'', []]
   \<and> decode_from_pixels Z \<lparr>width = w, height = h,
         pixels = pixel_header name original_size compressed_size @ rest, text_chunks = t\<rparr>
     = \<lparr>persisted = None, status = Inl InvalidHeaderError\<rparr>"
proof -
  have i: "index_of (CHR '':'') (pixel_header name original_size compressed_size @ rest) = Some 5"
    by (simp add: pixel_header_def)
  have "header_parts_of (pixel_header name original_size compressed_size @ rest) (int 5) =
      [take 5 (pixel_header name original_size compressed_size @ rest), []]"
    by (rule header_parts_first [OF i])
  then show ?thesis
    by (simp add: py_find_0 i decode_from_pixels_fails failed_def) (simp add: pixel_header_def)
qed

text \<open>
  The carrier that \<^verbatim>\<open>encode_to_pixels\<close> writes for the empty payload named \<^verbatim>\<open>w.bin\<close>.
\<close>

lemma encode_empty_w_bin:
  "encode_to_pixels zlib_recorded ''w.bin'' [] =
     \<lparr>persisted = Some \<lparr>width = 4, height = 3,
         pixels = ''MODEL:w.bin:0:8:eNoDAAAAAAE='' @ replicate 8 (CHR 0x00), text_chunks = []\<rparr>,
      status = Inr [Num 0, Num 8, Dim 4 3]\<rparr>"
  by code_simp

text \<open>
  Claim C9, tamper detection: on a pixel carrier whose \<^verbatim>\<open>compressed_size\<close> field has been
  raised, the decoder fails with \<^verbatim>\<open>SizeMismatchError\<close> or \<^verbatim>\<open>MalformedTextError\<close> and never
  returns wrong bytes. The code returns no bytes, but it fails with neither of these errors.
  The carrier of the empty payload named \<^verbatim>\<open>w.bin\<close> with its field \<^verbatim>\<open>8\<close> changed to \<^verbatim>\<open>9\<close> is
  rejected by the header check of line 158, as every carrier is, before the size or the text
  is looked at.
\<close>

theorem tampered_size_fails_header_check:
  "decode_from_pixels zlib_recorded
      \<lparr>width = 4, height = 3,
       pixels = ''MODEL:w.bin:0:9:eNoDAAAAAAE='' @ replicate 8 (CHR 0x00), text_chunks = []\<rparr>
     = \<lparr>persisted = None, status = Inl InvalidHeaderError\<rparr>"
  by (simp add: decode_from_pixels_fails failed_def)

section \<open>The length of the extracted text\<close>

text \<open>
  \<^verbatim>\<open>math.ceil(n * 4/3)\<close> against the length of the text of \<open>n\<close> bytes, by the remainder of
  \<open>n\<close> modulo three: the two agree for a multiple of three, and the ceiling is two short
  or one short otherwise.
\<close>

lemma b64_extract_len_eq: "b64_extract_len n = - ((- (n * 4)) div 3)"
  by (simp add: b64_extract_len_def ceil_quot_code)

lemma b64_extract_len_cases:
  "b64_extract_len (int (3 * k)) = int (4 * k)"
  "b64_extract_len (int (3 * k + 1)) = int (4 * k + 2)"
  "b64_extract_len (int (3 * k + 2)) = int (4 * k + 3)"
proof -
  have a: "- (int (3 * k) * 4) = (- 4 * int k) * 3" by simp
  have b: "- (int (3 * k + 1) * 4) = (- 4 * int k - 2) * 3 + 2" by simp
  have c: "- (int (3 * k + 2) * 4) = (- 4 * int k - 3) * 3 + 1" by simp
  show "b64_extract_len (int (3 * k)) = int (4 * k)"
    unfolding b64_extract_len_eq a by simp
  show "b64_extract_len (int (3 * k + 1)) = int (4 * k + 2)"
    unfolding b64_extract_len_eq b by (simp only: div_mult_self3; simp)
  show "b64_extract_len (int (3 * k + 2)) = int (4 * k + 3)"
    unfolding b64_extract_len_eq c by (simp only: div_mult_self3; simp)
qed

lemma length_b64encode_cases:
  "length bs = 3 * k \<Longrightarrow> length (b64encode bs) = 4 * k"
  "length bs = 3 * k + 1 \<Longrightarrow> length (b64encode bs) = 4 * k + 4"
  "length bs = 3 * k + 2 \<Longrightarrow> length (b64encode bs) = 4 * k + 4"
  by (simp_all add: length_b64encode)

text \<open>
  Claim C3, the extraction length: for a compressed payload of \<open>n\<close> bytes,
  \<^verbatim>\<open>ceil(n * 4/3)\<close> is the length of its padded radix-64 text, so the bytes taken at line 171
  hold the whole text. The code does not achieve this. The empty payload compresses to 8
  bytes, whose text \<^verbatim>\<open>eNoDAAAAAAE=\<close> has 12 characters, while line 171 takes 11. On the
  carrier of that payload, from the data region at offset 16, the slice is the text without
  its last character, and decoding it raises \<^verbatim>\<open>Incorrect padding\<close>.
\<close>

theorem extract_len_short:
  "b64_extract_len 8 = 11 \<and> length (b64encode zlib9_empty) = 12
   \<and> rstrip_nul (py_slice (''MODEL:w.bin:0:8:'' @ b64encode zlib9_empty @ replicate 8 (CHR 0x00))
                    16 (16 + b64_extract_len 8)) = ''eNoDAAAAAAE''
   \<and> b64decode ''eNoDAAAAAAE'' = Inl MalformedTextError"
  by code_simp

section \<open>The pixel encoder\<close>

text \<open>
  Claim C5, the frame: for every payload the flattened pixel bytes of the carrier written
  by \<^verbatim>\<open>encode_to_pixels\<close> are the header \<^verbatim>\<open>MODEL:<name>:<original_size>:<compressed_size>:\<close>,
  then the radix-64 text of the compressed payload, then zero bytes, and they are exactly
  \<^verbatim>\<open>W * H * 3\<close> bytes.
\<close>

theorem pixel_frame_layout:
  "\<exists>img k. persisted (encode_to_pixels Z name b) = Some img
      \<and> pixels img =
           ''MODEL:'' @ name @ '':'' @ str_nat (length b) @ '':''
             @ str_nat (length (compress Z b)) @ '':''
             @ b64encode (compress Z b) @ replicate k (CHR 0x00)
      \<and> length (pixels img) = width img * height img * 3"
proof -
  from encode_to_pixels_result [of name b Z] obtain w h where
    cap: "length (pixel_header name (length b) (length (compress Z b)) @ b64encode (compress Z b))
            \<le> w * h * 3"
    and e: "encode_to_pixels Z name b =
               \<lparr>persisted = Some \<lparr>width = w, height = h,
                                   pixels = (pixel_header name (length b) (length (compress Z b))
                          @ b64encode (compress Z b)) @ replicate (w * h * 3 - length (pixel_header name (length b) (length (compress Z b))
                          @ b64encode (compress Z b))) (CHR 0x00),
                                   text_chunks = []\<rparr>,
                status = Inr [Num (int (length b)),
                              Num (int (length (compress Z b))), Dim w h]\<rparr>"
    by blast
  show ?thesis
    unfolding e using cap by (simp add: pixel_header_def)
qed

lemma ceil_quot_3_real: "ceil_quot (int L) 3 = \<lceil>real L / 3\<rceil>"
  by (simp add: ceil_quot_def)

text \<open>
  Claim C6, the grid: for a frame of \<open>L \<ge> 1\<close> bytes the dimensions are
  \<open>W = \<lceil>sqrt \<lceil>L / 3\<rceil>\<rceil>\<close> and \<open>H = \<lceil>\<lceil>L / 3\<rceil> / W\<rceil>\<close>, the grid holds the frame,
  \<open>L \<le> W * H * 3\<close>, and neither side is zero. \<^verbatim>\<open>encode_to_pixels\<close> computes its grid in
  this way from a frame that is never empty, for the empty payload too, since the header
  alone has at least one byte.
\<close>

theorem grid_dimensions:
  assumes "1 \<le> L"
  shows "(\<exists>W H. grid L = Inr (W, H)
            \<and> int W = \<lceil>sqrt (real_of_int \<lceil>real L / 3\<rceil>)\<rceil>
            \<and> int H = \<lceil>real_of_int \<lceil>real L / 3\<rceil> / real W\<rceil>
            \<and> L \<le> W * H * 3 \<and> 1 \<le> W \<and> 1 \<le> H)
       \<and> (\<exists>img. persisted (encode_to_pixels Z name b) = Some img
            \<and> 1 \<le> length (pixel_header name (length b) (length (compress Z b))
                             @ b64encode (compress Z b))
            \<and> grid (length (pixel_header name (length b) (length (compress Z b))
                             @ b64encode (compress Z b)))
                = Inr (width img, height img))"
proof
  from grid_sizing [OF assms] obtain w h where
    g: "grid L = Inr (w, h)" and w: "w = ceil_sqrt (nat (ceil_quot (int L) 3))"
    and h: "h = nat (ceil_quot (ceil_quot (int L) 3) (int w))"
    and pos: "1 \<le> w" "1 \<le> h" and cap: "L \<le> w * h * 3"
    by blast
  have tp: "0 < ceil_quot (int L) 3" using ceil_quot_pos [of "int L" 3] assms by simp
  then have tp': "0 \<le> \<lceil>real L / 3\<rceil>" by (simp add: ceil_quot_3_real)
  have rw: "real (nat \<lceil>real L / 3\<rceil>) = real_of_int \<lceil>real L / 3\<rceil>"
    using tp' by simp
  have "0 \<le> \<lceil>sqrt (real_of_int \<lceil>real L / 3\<rceil>)\<rceil>"
  proof -
    have "(- 1 :: real) < sqrt (real_of_int \<lceil>real L / 3\<rceil>)"
      by (rule less_le_trans [of _ 0]) (use tp' in simp_all)
    then show ?thesis by simp
  qed
  then have W: "int w = \<lceil>sqrt (real_of_int \<lceil>real L / 3\<rceil>)\<rceil>"
    unfolding w ceil_sqrt_def ceil_quot_3_real rw by simp
  have "0 < ceil_quot (ceil_quot (int L) 3) (int w)"
    using ceil_quot_pos [OF tp, of "int w"] pos by simp
  then have H: "int h = \<lceil>real_of_int \<lceil>real L / 3\<rceil> / real w\<rceil>"
    unfolding h by (simp add: ceil_quot_def)
  show "\<exists>W H. grid L = Inr (W, H)
            \<and> int W = \<lceil>sqrt (real_of_int \<lceil>real L / 3\<rceil>)\<rceil>
            \<and> int H = \<lceil>real_of_int \<lceil>real L / 3\<rceil> / real W\<rceil>
            \<and> L \<le> W * H * 3 \<and> 1 \<le> W \<and> 1 \<le> H"
    using g W H cap pos by blast
next
  from encode_to_pixels_result [of name b Z] obtain w h where
    g: "grid (length (pixel_header name (length b) (length (compress Z b)) @ b64encode (compress Z b)))
          = Inr (w, h)"
    and e: "encode_to_pixels Z name b =
               \<lparr>persisted = Some \<lparr>width = w, height = h,
                                   pixels = (pixel_header name (length b) (length (compress Z b))
                          @ b64encode (compress Z b)) @ replicate (w * h * 3 - length (pixel_header name (length b) (length (compress Z b))
                          @ b64encode (compress Z b))) (CHR 0x00),
                                   text_chunks = []\<rparr>,
                status = Inr [Num (int (length b)),
                              Num (int (length (compress Z b))), Dim w h]\<rparr>"
    by blast
  show "\<exists>img. persisted (encode_to_pixels Z name b) = Some img
            \<and> 1 \<le> length (pixel_header name (length b) (length (compress Z b))
                             @ b64encode (compress Z b))
            \<and> grid (length (pixel_header name (length b) (length (compress Z b))
                             @ b64encode (compress Z b)))
                = Inr (width img, height img)"
    unfolding e using g pixel_header_nonempty [of name "length b" "length (compress Z b)" "b64encode (compress Z b)"]
    by simp
qed

theorem grid_dimensions_witness:
  "(1::nat) \<le> 28
   \<and> grid 28 = Inr (4, 3)
   \<and> (\<exists>W H. grid 28 = Inr (W, H)
            \<and> int W = \<lceil>sqrt (real_of_int \<lceil>real (28::nat) / 3\<rceil>)\<rceil>
            \<and> int H = \<lceil>real_of_int \<lceil>real (28::nat) / 3\<rceil> / real W\<rceil>
            \<and> 28 \<le> W * H * 3 \<and> 1 \<le> W \<and> 1 \<le> H)
   \<and> (\<exists>img. persisted (encode_to_pixels zlib_recorded ''w.bin'' []) = Some img
            \<and> width img = 4 \<and> height img = 3)"
proof -
  have h: "(1::nat) \<le> 28" by simp
  have g: "grid 28 = Inr (4, 3)" by code_simp
  have e: "\<exists>img. persisted (encode_to_pixels zlib_recorded ''w.bin'' []) = Some img
            \<and> width img = 4 \<and> height img = 3"
    by (simp add: encode_empty_w_bin)
  from grid_dimensions [OF h, of zlib_recorded "''w.bin''" "[]"] have
    "\<exists>W H. grid 28 = Inr (W, H)
            \<and> int W = \<lceil>sqrt (real_of_int \<lceil>real (28::nat) / 3\<rceil>)\<rceil>
            \<and> int H = \<lceil>real_of_int \<lceil>real (28::nat) / 3\<rceil> / real W\<rceil>
            \<and> 28 \<le> W * H * 3 \<and> 1 \<le> W \<and> 1 \<le> H"
    by (rule conjunct1)
  with h g e show ?thesis by blast
qed

section \<open>The chunk method\<close>

subsection \<open>Printing a length and reading it back\<close>

text \<open>
  \<^verbatim>\<open>int(str(n))\<close> is \<open>n\<close>: the sizes that \<^verbatim>\<open>encode_to_chunk\<close> stores are read back without
  an exception by \<^verbatim>\<open>decode_from_chunk\<close>.
\<close>

lemma of_char_digit_char: "d < 10 \<Longrightarrow> (of_char (digit_char d) :: nat) = 48 + d"
  by (simp add: digit_char_def)

lemma is_digit_digit_char: "d < 10 \<Longrightarrow> is_digit (digit_char d)"
  by (simp add: is_digit_def of_char_digit_char)

lemma str_nat_digits: "list_all is_digit (str_nat n)"
proof (induction n rule: str_nat.induct)
  case (1 n)
  show ?case
  proof (cases "n < 10")
    case True
    then show ?thesis by (subst str_nat.simps) (simp add: is_digit_digit_char)
  next
    case False
    then show ?thesis using "1.IH"
      by (subst str_nat.simps) (simp add: is_digit_digit_char)
  qed
qed

lemma str_nat_nonempty: "str_nat n \<noteq> []"
  by (subst str_nat.simps) simp

lemma decimal_snoc:
  "is_digit c \<Longrightarrow> list_all is_digit ds \<Longrightarrow> decimal (ds @ [c]) = decimal ds * 10 + (of_char c - 48)"
  by (simp add: decimal_def)

lemma decimal_str_nat: "decimal (str_nat n) = n"
proof (induction n rule: str_nat.induct)
  case (1 n)
  show ?case
  proof (cases "n < 10")
    case True
    then show ?thesis
      by (subst str_nat.simps) (simp add: decimal_def is_digit_digit_char of_char_digit_char)
  next
    case False
    have "decimal (str_nat (n div 10) @ [digit_char (n mod 10)]) =
            decimal (str_nat (n div 10)) * 10 + (of_char (digit_char (n mod 10)) - 48)"
      by (rule decimal_snoc) (simp_all add: is_digit_digit_char str_nat_digits)
    also have "\<dots> = (n div 10) * 10 + n mod 10"
      using "1.IH" [OF False] by (simp add: of_char_digit_char)
    also have "\<dots> = n" by simp
    finally show ?thesis using False by (subst str_nat.simps) simp
  qed
qed

lemma is_digit_not_underscore: "is_digit c \<Longrightarrow> c \<noteq> CHR ''_''"
  by (auto simp: is_digit_def)

lemma is_digit_not_sign: "is_digit c \<Longrightarrow> c \<noteq> CHR ''-'' \<and> c \<noteq> CHR ''+''"
  by (auto simp: is_digit_def)

lemma is_digit_not_space: "is_digit c \<Longrightarrow> c \<notin> set latin1_space"
  by (auto simp: is_digit_def latin1_space_def ascii_space_def)

lemma digits_ok_all: "ds \<noteq> [] \<Longrightarrow> list_all is_digit ds \<Longrightarrow> digits_ok ds"
  by (induction ds rule: digits_ok.induct) (auto simp: is_digit_not_underscore)

lemma dropWhile_none: "list_all (\<lambda>c. \<not> P c) xs \<Longrightarrow> dropWhile P xs = xs"
  by (cases xs) simp_all

lemma strip_digits: "list_all is_digit ds \<Longrightarrow> strip latin1_space ds = ds"
proof -
  assume d: "list_all is_digit ds"
  then have 1: "list_all (\<lambda>c. \<not> c \<in> set latin1_space) ds"
    by (induction ds) (simp_all add: is_digit_not_space)
  then have 2: "list_all (\<lambda>c. \<not> c \<in> set latin1_space) (rev ds)" by simp
  show ?thesis
    by (simp add: strip_def dropWhile_none [OF 1] dropWhile_none [OF 2])
qed

lemma py_int_str_nat: "py_int latin1_space (str_nat n) = Inr (int n)"
proof -
  obtain c r where cr: "str_nat n = c # r"
    using str_nat_nonempty [of n] by (cases "str_nat n") auto
  have d: "list_all is_digit (c # r)" using str_nat_digits [of n] cr by simp
  then have c: "c \<noteq> CHR ''-''" "c \<noteq> CHR ''+''" using is_digit_not_sign [of c] by simp_all
  have ok: "digits_ok (c # r)" using d by (intro digits_ok_all) simp_all
  have "decimal (c # r) = n" using decimal_str_nat [of n] cr by simp
  then show ?thesis
    using strip_digits [OF d] c ok by (simp add: py_int_def cr)
qed

subsection \<open>Reading the text chunks back\<close>

text \<open>
  What \<^verbatim>\<open>Image.open\<close> reads of the four chunks that \<^verbatim>\<open>encode_to_chunk\<close> writes under the
  default chunk name: all four entries when their values have at most \<^verbatim>\<open>MAX_TEXT_MEMORY\<close>
  characters together, and \<^verbatim>\<open>ValueError\<close> when the first value alone has more.
\<close>

lemma max_text_memory: "MAX_TEXT_MEMORY = 67108864"
  by (simp add: MAX_TEXT_MEMORY_def)

lemma chunk_tEXt_data:
  "CHR 0x00 \<notin> set k \<Longrightarrow> chunk_tEXt (tEXt_data (k, v)) = (k, v)"
proof -
  assume k: "CHR 0x00 \<notin> set k"
  then have "takeWhile (\<lambda>c. c \<noteq> CHR 0x00) (k @ CHR 0x00 # v) = k"
    by (induction k) auto
  then show ?thesis by (simp add: chunk_tEXt_def tEXt_data_def)
qed

lemma open_text_encoded:
  assumes "length t0 + length t1 + length t2 + length t3 \<le> MAX_TEXT_MEMORY"
    and "text_chunks img =
      [(''mOdL'', t0), (''mOdL_name'', t1), (''mOdL_size'', t2), (''mOdL_compressed_size'', t3)]"
  shows "open_text img =
      Inr [(''mOdL_compressed_size'', t3), (''mOdL_size'', t2), (''mOdL_name'', t1), (''mOdL'', t0)]"
proof -
  have 0: "\<not> MAX_TEXT_MEMORY < length t0" using assms(1) by simp
  have 1: "\<not> MAX_TEXT_MEMORY < length t0 + length t1" using assms(1) by simp
  have 2: "\<not> MAX_TEXT_MEMORY < length t0 + length t1 + length t2" using assms(1) by simp
  have 3: "\<not> MAX_TEXT_MEMORY < length t0 + length t1 + length t2 + length t3"
    using assms(1) by simp
  show ?thesis
    by (simp add: open_text_def assms(2) chunk_tEXt_data 0 1 2 3)
qed

lemma open_text_too_large:
  assumes "MAX_TEXT_MEMORY < length t0"
    and "text_chunks img = (''mOdL'', t0) # rest"
  shows "open_text img = Inl TextMemoryError"
  using assms(1) by (simp add: open_text_def assms(2) chunk_tEXt_data)

subsection \<open>The round trip\<close>

text \<open>
  With the default chunk name, for a payload that the compressor gives back and text chunks
  within the limit: the carrier is written, and decoding it writes the payload and prints
  the three stored entries. Beyond the limit the carrier is written as well, and opening it
  raises.
\<close>

lemma chunk_round_trip:
  assumes "decompress Z (compress Z b) = Inr b"
    and "length (b64encode (compress Z b)) + length name + length (str_nat (length b))
           + length (str_nat (length (compress Z b))) \<le> MAX_TEXT_MEMORY"
  shows "\<exists>img. persisted (encode_to_chunk Z name b ''mOdL'') = Some img
           \<and> decode_from_chunk Z img ''mOdL'' =
               \<lparr>persisted = Some b,
                status = Inr [Txt name, Num (int (length b)), Num (int (length (compress Z b)))]\<rparr>"
proof -
  define img where "img = \<lparr>width = 1, height = 1, pixels = [CHR 0xFF, CHR 0xFF, CHR 0xFF],
       text_chunks =
         [(''mOdL'', b64encode (compress Z b)),
          (''mOdL_name'', name),
          (''mOdL_size'', str_nat (length b)),
          (''mOdL_compressed_size'', str_nat (length (compress Z b)))]\<rparr>"
  have p: "persisted (encode_to_chunk Z name b ''mOdL'') = Some img"
    by (simp add: encode_to_chunk_def Let_def img_def)
  have o: "open_text img =
      Inr [(''mOdL_compressed_size'', str_nat (length (compress Z b))),
           (''mOdL_size'', str_nat (length b)), (''mOdL_name'', name),
           (''mOdL'', b64encode (compress Z b))]"
    by (rule open_text_encoded [OF assms(2)]) (simp add: img_def)
  have m: "print_metadata [(''mOdL_compressed_size'', str_nat (length (compress Z b))),
           (''mOdL_size'', str_nat (length b)), (''mOdL_name'', name),
           (''mOdL'', b64encode (compress Z b))] =
      Inr [Txt name, Num (int (length b)), Num (int (length (compress Z b)))]"
    by (simp add: print_metadata_def py_int_str_nat)
  have "decode_from_chunk Z img ''mOdL'' =
      \<lparr>persisted = Some b,
       status = Inr [Txt name, Num (int (length b)), Num (int (length (compress Z b)))]\<rparr>"
    unfolding decode_from_chunk_def o
    by (simp add: b64encode_ascii b64decode_b64encode assms(1) m)
  with p show ?thesis by blast
qed

lemma chunk_too_large:
  assumes "MAX_TEXT_MEMORY < length (b64encode (compress Z b))"
  shows "\<exists>img. persisted (encode_to_chunk Z name b ''mOdL'') = Some img
           \<and> decode_from_chunk Z img ''mOdL'' = \<lparr>persisted = None, status = Inl TextMemoryError\<rparr>"
proof -
  define img where "img = \<lparr>width = 1, height = 1, pixels = [CHR 0xFF, CHR 0xFF, CHR 0xFF],
       text_chunks =
         [(''mOdL'', b64encode (compress Z b)),
          (''mOdL_name'', name),
          (''mOdL_size'', str_nat (length b)),
          (''mOdL_compressed_size'', str_nat (length (compress Z b)))]\<rparr>"
  have p: "persisted (encode_to_chunk Z name b ''mOdL'') = Some img"
    by (simp add: encode_to_chunk_def Let_def img_def)
  have o: "open_text img = Inl TextMemoryError"
    by (rule open_text_too_large [OF assms]) (simp add: img_def)
  have "decode_from_chunk Z img ''mOdL'' = \<lparr>persisted = None, status = Inl TextMemoryError\<rparr>"
    unfolding decode_from_chunk_def o by (simp add: failed_def)
  with p show ?thesis by blast
qed

lemma encode_to_chunk_status:
  "compress Z b \<noteq> [] \<Longrightarrow>
   status (encode_to_chunk Z name b key) =
     Inr [Num (int (length b)), Num (int (length (compress Z b))),
          Ratio (length b) (length (compress Z b))]"
  by (simp add: encode_to_chunk_def Let_def)

subsection \<open>Payloads that no compressor makes small\<close>

text \<open>
  There are \<open>256\<^sup>n\<close> byte sequences of length \<open>n\<close> and fewer than that many shorter ones, so
  a compressor that loses nothing maps some sequence of length \<open>n\<close> to at least \<open>n\<close> bytes.
  For \<open>n\<close> = 50331649, one byte more than 48 MiB, the text of such an output has more than
  \<^verbatim>\<open>MAX_TEXT_MEMORY\<close> characters.
\<close>

lemma geometric_256: "(\<Sum>i\<le>m. (256::nat) ^ i) < 256 ^ Suc m"
proof (induction m)
  case 0
  then show ?case by simp
next
  case (Suc m)
  have "(\<Sum>i\<le>Suc m. (256::nat) ^ i) = (\<Sum>i\<le>m. 256 ^ i) + 256 ^ Suc m" by simp
  also have "\<dots> < 256 ^ Suc m + 256 ^ Suc m" using Suc.IH by simp
  also have "\<dots> \<le> 256 ^ Suc (Suc m)" by simp
  finally show ?case .
qed

lemma card_bytes_eq: "card {xs :: bytes. length xs = n} = 256 ^ n"
  using card_lists_length_eq [of "UNIV :: char set" n] by (simp add: card_UNIV_char)

lemma finite_bytes_le: "finite {xs :: bytes. length xs \<le> m}"
  using finite_lists_length_le [of "UNIV :: char set" m] by simp

lemma card_bytes_le: "card {xs :: bytes. length xs \<le> m} < 256 ^ Suc m"
  using card_lists_length_le [of "UNIV :: char set" m] geometric_256 [of m]
  by (simp add: card_UNIV_char)

lemma incompressible:
  fixes f :: "bytes \<Rightarrow> bytes"
  assumes "inj f"
  shows "\<exists>b. length b = n \<and> n \<le> length (f b)"
proof (cases n)
  case 0
  then show ?thesis by simp
next
  case (Suc m)
  show ?thesis
  proof (rule ccontr)
    assume "\<not> (\<exists>b. length b = n \<and> n \<le> length (f b))"
    then have short: "\<And>b. length b = n \<Longrightarrow> length (f b) \<le> m" using Suc by auto
    then have sub: "f ` {xs. length xs = n} \<subseteq> {xs. length xs \<le> m}" by auto
    have "card {xs :: bytes. length xs = n} = card (f ` {xs. length xs = n})"
      using assms by (simp add: card_image inj_on_subset)
    also have "\<dots> \<le> card {xs :: bytes. length xs \<le> m}"
      by (rule card_mono [OF finite_bytes_le sub])
    also have "\<dots> < 256 ^ Suc m" by (rule card_bytes_le)
    finally show False by (simp add: card_bytes_eq Suc)
  qed
qed

lemma lossless_inj:
  assumes "\<And>b. decompress Z (compress Z b) = Inr b"
  shows "inj (compress Z)"
proof (rule injI)
  fix x y
  assume "compress Z x = compress Z y"
  then have "decompress Z (compress Z x) = decompress Z (compress Z y)" by simp
  then show "x = y" by (simp add: assms)
qed

lemma b64_text_exceeds:
  assumes "50331649 \<le> length c"
  shows "MAX_TEXT_MEMORY < length (b64encode c)"
proof -
  have "50331651 \<le> length c + 2" using assms by simp
  then have "50331651 div 3 \<le> (length c + 2) div 3" by (rule div_le_mono)
  then have "16777217 \<le> (length c + 2) div 3" by simp
  then show ?thesis by (simp add: length_b64encode max_text_memory)
qed

lemma lossless_has_failing_payload:
  assumes "\<And>b. decompress Z (compress Z b) = Inr b"
  shows "\<exists>b img. length b = 50331649
           \<and> persisted (encode_to_chunk Z name b ''mOdL'') = Some img
           \<and> decode_from_chunk Z img ''mOdL'' = \<lparr>persisted = None, status = Inl TextMemoryError\<rparr>"
proof -
  from incompressible [OF lossless_inj [of Z], OF assms, of 50331649]
  obtain b where b: "length b = 50331649" "50331649 \<le> length (compress Z b)" by blast
  from chunk_too_large [OF b64_text_exceeds [OF b(2)], of name] b(1)
  show ?thesis by blast
qed

text \<open>
  Claim C4, the round trip of the chunk method: for every non-empty byte sequence \<open>b\<close> and
  every name, \<^verbatim>\<open>encode_to_chunk\<close> followed by \<^verbatim>\<open>decode_from_chunk\<close> on the carrier succeeds and
  yields \<open>b\<close>. This fails, whatever the compressor is, as long as it loses nothing: there
  is a payload of 50331649 bytes whose carrier is written and cannot be opened again,
  because \<^verbatim>\<open>Image.open\<close> (line 68) refuses more than 64 MiB of text.
\<close>

theorem chunk_round_trip_counterexample:
  "\<not> (\<exists>Z. (\<forall>b. decompress Z (compress Z b) = Inr b)
          \<and> (\<forall>b. b \<noteq> [] \<longrightarrow>
                 (\<exists>img. persisted (encode_to_chunk Z ''w.bin'' b ''mOdL'') = Some img
                      \<and> persisted (decode_from_chunk Z img ''mOdL'') = Some b)))"
proof
  assume "\<exists>Z. (\<forall>b. decompress Z (compress Z b) = Inr b)
          \<and> (\<forall>b. b \<noteq> [] \<longrightarrow>
                 (\<exists>img. persisted (encode_to_chunk Z ''w.bin'' b ''mOdL'') = Some img
                      \<and> persisted (decode_from_chunk Z img ''mOdL'') = Some b))"
  then obtain Z where l: "\<And>b. decompress Z (compress Z b) = Inr b"
    and r: "\<And>b. b \<noteq> [] \<Longrightarrow>
                 \<exists>img. persisted (encode_to_chunk Z ''w.bin'' b ''mOdL'') = Some img
                      \<and> persisted (decode_from_chunk Z img ''mOdL'') = Some b"
    by blast
  from lossless_has_failing_payload [of Z "''w.bin''", OF l] obtain b img where
    b: "length b = 50331649"
    and p: "persisted (encode_to_chunk Z ''w.bin'' b ''mOdL'') = Some img"
    and d: "decode_from_chunk Z img ''mOdL'' = \<lparr>persisted = None, status = Inl TextMemoryError\<rparr>"
    by blast
  have "b \<noteq> []" using b by auto
  from r [OF this] p d show False by auto
qed

text \<open>
  Claim C4 as amended: for every non-empty byte sequence \<open>b\<close> and every name of Latin-1
  characters, if the values of the four text chunks (the radix-64 text, the name and the
  two decimal sizes) have at most \<^verbatim>\<open>MAX_TEXT_MEMORY\<close> = 67108864 characters together, then
  \<^verbatim>\<open>encode_to_chunk\<close> followed by \<^verbatim>\<open>decode_from_chunk\<close> on the carrier succeeds and yields \<open>b\<close>.
  The two facts about the compressor that this needs are hypotheses: its output for \<open>b\<close> is
  not empty, and decompressing that output gives \<open>b\<close>.
\<close>

theorem chunk_round_trip_nonempty:
  assumes "b \<noteq> []"
    and "compress Z b \<noteq> []"
    and "decompress Z (compress Z b) = Inr b"
    and "length (b64encode (compress Z b)) + length name + length (str_nat (length b))
           + length (str_nat (length (compress Z b))) \<le> MAX_TEXT_MEMORY"
  shows "\<exists>img. encode_to_chunk Z name b ''mOdL'' =
              \<lparr>persisted = Some img,
               status = Inr [Num (int (length b)), Num (int (length (compress Z b))),
                             Ratio (length b) (length (compress Z b))]\<rparr>
           \<and> decode_from_chunk Z img ''mOdL'' =
               \<lparr>persisted = Some b,
                status = Inr [Txt name, Num (int (length b)), Num (int (length (compress Z b)))]\<rparr>"
proof -
  from chunk_round_trip [OF assms(3) assms(4)] obtain img where
    p: "persisted (encode_to_chunk Z name b ''mOdL'') = Some img"
    and d: "decode_from_chunk Z img ''mOdL'' =
               \<lparr>persisted = Some b,
                status = Inr [Txt name, Num (int (length b)), Num (int (length (compress Z b)))]\<rparr>"
    by blast
  have "encode_to_chunk Z name b ''mOdL'' =
      \<lparr>persisted = persisted (encode_to_chunk Z name b ''mOdL''),
       status = status (encode_to_chunk Z name b ''mOdL'')\<rparr>"
    by simp
  then have "encode_to_chunk Z name b ''mOdL'' =
      \<lparr>persisted = Some img,
       status = Inr [Num (int (length b)), Num (int (length (compress Z b))),
                     Ratio (length b) (length (compress Z b))]\<rparr>"
    by (simp only: p encode_to_chunk_status [OF assms(2)])
  with d show ?thesis by blast
qed

theorem chunk_round_trip_nonempty_witness:
  "''a'' \<noteq> [] \<and> compress zlib_recorded ''a'' \<noteq> []
   \<and> decompress zlib_recorded (compress zlib_recorded ''a'') = Inr ''a''
   \<and> length (b64encode (compress zlib_recorded ''a'')) + length ''w.bin''
        + length (str_nat (length ''a'')) + length (str_nat (length (compress zlib_recorded ''a'')))
        \<le> MAX_TEXT_MEMORY
   \<and> (\<exists>img. encode_to_chunk zlib_recorded ''w.bin'' ''a'' ''mOdL'' =
              \<lparr>persisted = Some img, status = Inr [Num 1, Num 9, Ratio 1 9]\<rparr>
           \<and> decode_from_chunk zlib_recorded img ''mOdL'' =
               \<lparr>persisted = Some ''a'', status = Inr [Txt ''w.bin'', Num 1, Num 9]\<rparr>)"
proof -
  have h1: "''a'' \<noteq> []" by simp
  have h2: "compress zlib_recorded ''a'' \<noteq> []" by (simp add: zlib_recorded_def zlib9_a_def)
  have h3: "decompress zlib_recorded (compress zlib_recorded ''a'') = Inr ''a''"
    by (simp add: zlib_recorded_def zlib9_a_def zlib9_empty_def)
  have l: "length (compress zlib_recorded ''a'') = 9" by (simp add: zlib_recorded_def zlib9_a_def)
  have h4: "length (b64encode (compress zlib_recorded ''a'')) + length ''w.bin''
        + length (str_nat (length ''a'')) + length (str_nat (length (compress zlib_recorded ''a'')))
        \<le> MAX_TEXT_MEMORY"
    by (simp add: length_b64encode l str_nat.simps max_text_memory)
  show ?thesis
    using chunk_round_trip_nonempty [OF h1 h2 h3 h4] h2 h3 h4 by (simp add: l)
qed

text \<open>
  Claim C10, the empty payload in the chunk method: the compressor's output for the empty
  input is not empty, so the ratio of line 63 does not divide by zero and
  \<^verbatim>\<open>encode_to_chunk\<close> succeeds, and \<^verbatim>\<open>decode_from_chunk\<close> on the carrier yields the empty byte
  sequence. That the compressor's output is not empty and decompresses to the empty
  sequence are hypotheses; the recorded call \<^verbatim>\<open>zlib.compress(b'', 9)\<close>, eight bytes,
  satisfies both. The third hypothesis is the limit of the container, which the twelve
  characters of that output's text, a file name and two short numbers are far below.
\<close>

theorem chunk_round_trip_empty:
  assumes "compress Z [] \<noteq> []"
    and "decompress Z (compress Z []) = Inr []"
    and "length (b64encode (compress Z [])) + length name + length (str_nat 0)
           + length (str_nat (length (compress Z []))) \<le> MAX_TEXT_MEMORY"
  shows "\<exists>img. encode_to_chunk Z name [] ''mOdL'' =
              \<lparr>persisted = Some img,
               status = Inr [Num 0, Num (int (length (compress Z []))),
                             Ratio 0 (length (compress Z []))]\<rparr>
           \<and> 0 < length (compress Z [])
           \<and> decode_from_chunk Z img ''mOdL'' =
               \<lparr>persisted = Some [],
                status = Inr [Txt name, Num 0, Num (int (length (compress Z [])))]\<rparr>"
proof -
  have bound: "length (b64encode (compress Z [])) + length name
           + length (str_nat (length ([] :: bytes)))
           + length (str_nat (length (compress Z []))) \<le> MAX_TEXT_MEMORY"
    using assms(3) by simp
  from chunk_round_trip [OF assms(2) bound] obtain img where
    p: "persisted (encode_to_chunk Z name [] ''mOdL'') = Some img"
    and d: "decode_from_chunk Z img ''mOdL'' =
               \<lparr>persisted = Some [],
                status = Inr [Txt name, Num (int (length ([] :: bytes))), Num (int (length (compress Z [])))]\<rparr>"
    by blast
  have "encode_to_chunk Z name [] ''mOdL'' =
      \<lparr>persisted = persisted (encode_to_chunk Z name [] ''mOdL''),
       status = status (encode_to_chunk Z name [] ''mOdL'')\<rparr>"
    by simp
  then have "encode_to_chunk Z name [] ''mOdL'' =
      \<lparr>persisted = Some img,
       status = Inr [Num (int (length ([] :: bytes))), Num (int (length (compress Z []))),
                     Ratio (length ([] :: bytes)) (length (compress Z []))]\<rparr>"
    by (simp only: p encode_to_chunk_status [OF assms(1)])
  with d assms(1) show ?thesis by auto
qed

theorem chunk_round_trip_empty_witness:
  "compress zlib_recorded [] \<noteq> []
   \<and> decompress zlib_recorded (compress zlib_recorded []) = Inr []
   \<and> length (b64encode (compress zlib_recorded [])) + length ''w.bin'' + length (str_nat 0)
        + length (str_nat (length (compress zlib_recorded []))) \<le> MAX_TEXT_MEMORY
   \<and> (\<exists>img. encode_to_chunk zlib_recorded ''w.bin'' [] ''mOdL'' =
              \<lparr>persisted = Some img, status = Inr [Num 0, Num 8, Ratio 0 8]\<rparr>
           \<and> decode_from_chunk zlib_recorded img ''mOdL'' =
               \<lparr>persisted = Some [], status = Inr [Txt ''w.bin'', Num 0, Num 8]\<rparr>)"
proof -
  have h1: "compress zlib_recorded [] \<noteq> []" by (simp add: zlib_recorded_def zlib9_empty_def)
  have h2: "decompress zlib_recorded (compress zlib_recorded []) = Inr []"
    by (simp add: zlib_recorded_def)
  have l: "length (compress zlib_recorded []) = 8" by (simp add: zlib_recorded_def zlib9_empty_def)
  have h3: "length (b64encode (compress zlib_recorded [])) + length ''w.bin'' + length (str_nat 0)
        + length (str_nat (length (compress zlib_recorded []))) \<le> MAX_TEXT_MEMORY"
    by (simp add: length_b64encode l str_nat.simps max_text_memory)
  show ?thesis
    using chunk_round_trip_empty [OF h1 h2 h3] h1 h2 h3 by (simp add: l)
qed

subsection \<open>After the output file is written\<close>

text \<open>
  Claim C7, atomic decoding: a decode either completes and persists its output or fails
  and persists nothing, so no error is raised after the output file has been written.
  \<^verbatim>\<open>decode_from_chunk\<close> breaks this. On a carrier whose data chunk holds the text of the
  compressed payload \<^verbatim>\<open>a\<close> and whose \<^verbatim>\<open>mOdL_size\<close> entry is \<^verbatim>\<open>abc\<close>, the payload is written
  (lines 81 and 82) and then \<^verbatim>\<open>int('abc')\<close> raises at line 88.
\<close>

theorem chunk_decode_raises_after_write:
  "decode_from_chunk zlib_recorded
      \<lparr>width = 1, height = 1, pixels = [CHR 0xFF, CHR 0xFF, CHR 0xFF],
       text_chunks = [(''mOdL'', ''eNpLBAAAYgBi''), (''mOdL_size'', ''abc'')]\<rparr> ''mOdL''
     = \<lparr>persisted = Some ''a'', status = Inl IntValueError\<rparr>"
proof -
  have o: "open_text \<lparr>width = 1, height = 1, pixels = [CHR 0xFF, CHR 0xFF, CHR 0xFF],
       text_chunks = [(''mOdL'', ''eNpLBAAAYgBi''), (''mOdL_size'', ''abc'')]\<rparr>
      = Inr [(''mOdL_size'', ''abc''), (''mOdL'', ''eNpLBAAAYgBi'')]"
    by (simp add: open_text_def chunk_tEXt_data max_text_memory)
  have d: "b64decode ''eNpLBAAAYgBi'' = Inr zlib9_a" by code_simp
  have z: "decompress zlib_recorded zlib9_a = Inr ''a''"
    by (simp add: zlib_recorded_def zlib9_a_def zlib9_empty_def)
  have m: "print_metadata [(''mOdL_size'', ''abc''), (''mOdL'', ''eNpLBAAAYgBi'')] = Inl IntValueError"
    by code_simp
  show ?thesis
    unfolding decode_from_chunk_def o by (simp add: d z m)
qed

subsection \<open>The metadata keys\<close>



end
